theory Spec2Isabelle
  imports Complex_Main "HOL-Library.Log_Nat"
begin

section \<open>Python runtime: exceptions, dates, floats, the random generator\<close>

text \<open>
  Exceptions are values. The constructors are the classes the three source files raise or
  catch; \<open>NotFound\<close> is a subclass of \<open>GoogleCloudError\<close>, \<open>OtherError\<close> stands for any
  other subclass of \<open>Exception\<close>, and \<open>Interrupt\<close> for a \<open>BaseException\<close> outside
  \<open>Exception\<close> (\<open>KeyboardInterrupt\<close>, \<open>SystemExit\<close>), which \<open>except Exception\<close> lets through.
\<close>

datatype exn =
    ValueError | TypeError | OverflowError | EOFError
  | FileNotFoundError | GoogleCloudError | NotFound | OtherError | Interrupt

fun is_GoogleCloudError :: "exn \<Rightarrow> bool" where
  "is_GoogleCloudError GoogleCloudError = True"
| "is_GoogleCloudError NotFound = True"
| "is_GoogleCloudError _ = False"

fun is_Exception :: "exn \<Rightarrow> bool" where
  "is_Exception Interrupt = False"
| "is_Exception _ = True"

text \<open>
  A \<open>datetime.date\<close> is its proleptic Gregorian ordinal (\<open>date.toordinal()\<close>, day 1 is
  0001-01-01). \<open>date - timedelta(days=i)\<close> raises \<open>OverflowError\<close> outside
  \<open>1 .. _MAXORDINAL\<close>, and \<open>timedelta\<close> itself beyond 999999999 days.
\<close>

type_synonym date = int

definition MAXORDINAL :: int where
  "MAXORDINAL = 3652059"

definition timedelta :: "int \<Rightarrow> exn + int" where
  "timedelta days = (if \<bar>days\<bar> \<le> 999999999 then Inr days else Inl OverflowError)"

definition date_sub :: "date \<Rightarrow> int \<Rightarrow> exn + date" where
  "date_sub d delta =
     (let ord = d - delta
      in if 0 < ord \<and> ord \<le> MAXORDINAL then Inr ord else Inl OverflowError)"

text \<open>A list comprehension whose element expression may raise: the first failure wins.\<close>

fun comprehension :: "('a \<Rightarrow> exn + 'b) \<Rightarrow> 'a list \<Rightarrow> exn + 'b list" where
  "comprehension f [] = Inr []"
| "comprehension f (x # xs) =
     (case f x of
        Inl e \<Rightarrow> Inl e
      | Inr y \<Rightarrow> (case comprehension f xs of Inl e \<Rightarrow> Inl e | Inr ys \<Rightarrow> Inr (y # ys)))"

text \<open>\<open>range(n)\<close> for a Python int: empty when \<open>n \<le> 0\<close>.\<close>

definition range :: "int \<Rightarrow> int list" where
  "range n = map int [0 ..< nat n]"

subsection \<open>Floats\<close>

text \<open>
  A Python float is an IEEE 754 double: \<open>Double m e\<close> stands for \<open>m * 2 ^ e\<close>, and every
  operation returns the double nearest to its exact result, ties to the even mantissa.
  \<open>ratio\<close> gives the exact value as a fraction with a positive denominator.
  The exponent range (overflow, subnormal numbers), infinities, NaN and the sign of zero
  are outside the model. A draw of \<open>random.random()\<close> is \<open>k / 2 ^ 53\<close> with
  \<open>0 \<le> k < 2 ^ 53\<close>; from such draws the walk below computes only zero and values far
  inside the normal range.
\<close>

datatype double = Double (mant: int) (expo: int)

definition ratio :: "double \<Rightarrow> int \<times> int" where
  "ratio x = (if 0 \<le> expo x then (mant x * 2 ^ nat (expo x), 1)
              else (mant x, 2 ^ nat (- expo x)))"

definition valof :: "double \<Rightarrow> real" where
  "valof x = (case ratio x of (n, d) \<Rightarrow> of_int n / of_int d)"

text \<open>\<open>scale2 n d s\<close> is the fraction \<open>n / d * 2 ^ s\<close>.\<close>

definition scale2 :: "int \<Rightarrow> int \<Rightarrow> int \<Rightarrow> int \<times> int" where
  "scale2 n d s = (if 0 \<le> s then (n * 2 ^ nat s, d) else (n, d * 2 ^ nat (- s)))"

text \<open>
  \<open>floor_log2 n d\<close> is the binary exponent of the positive fraction \<open>n / d\<close>: the
  difference of the bit lengths, lowered by one when \<open>n / d\<close> is below that power of two.
\<close>

definition floor_log2 :: "int \<Rightarrow> int \<Rightarrow> int" where
  "floor_log2 n d =
     (let k = bitlen n - bitlen d
      in case scale2 n d (- k) of (a, b) \<Rightarrow> if b \<le> a then k else k - 1)"

text \<open>The integer nearest to \<open>a / b\<close> for \<open>b > 0\<close>, a tie going to the even one.\<close>

definition rhe_div :: "int \<Rightarrow> int \<Rightarrow> int" where
  "rhe_div a b =
     (let q = a div b; r = a mod b
      in if 2 * r < b then q else if b < 2 * r then q + 1
         else if even q then q else q + 1)"

text \<open>
  The double nearest to \<open>n / d\<close> (\<open>d > 0\<close>): the fraction is scaled into
  \<open>2 ^ 52 \<dots> 2 ^ 53\<close>, rounded to an integer mantissa, and a mantissa that rounds up to
  \<open>2 ^ 53\<close> is renormalised.
\<close>

definition nearest :: "int \<Rightarrow> int \<Rightarrow> double" where
  "nearest n d =
     (if n = 0 then Double 0 0
      else (let s = 52 - floor_log2 \<bar>n\<bar> d
            in case scale2 n d s of
                 (a, b) \<Rightarrow>
                   (let m = rhe_div a b
                    in if \<bar>m\<bar> = 2 ^ 53 then Double (m div 2) (1 - s) else Double m (- s))))"

text \<open>
  The operators \<open>+\<close>, \<open>-\<close>, \<open>*\<close>, \<open><\<close> and \<open><=\<close> on floats. A decimal literal is the
  double nearest to it: \<open>0.85\<close> is \<open>nearest 85 100\<close>, \<open>1.0\<close> is \<open>nearest 1 1\<close>.
\<close>

definition fadd :: "double \<Rightarrow> double \<Rightarrow> double" where
  "fadd x y =
     (case (ratio x, ratio y) of
        ((n1, d1), (n2, d2)) \<Rightarrow> nearest (n1 * d2 + n2 * d1) (d1 * d2))"

definition fsub :: "double \<Rightarrow> double \<Rightarrow> double" where
  "fsub x y =
     (case (ratio x, ratio y) of
        ((n1, d1), (n2, d2)) \<Rightarrow> nearest (n1 * d2 - n2 * d1) (d1 * d2))"

definition fmul :: "double \<Rightarrow> double \<Rightarrow> double" where
  "fmul x y =
     (case (ratio x, ratio y) of ((n1, d1), (n2, d2)) \<Rightarrow> nearest (n1 * n2) (d1 * d2))"

definition fneg :: "double \<Rightarrow> double" where
  "fneg x = Double (- mant x) (expo x)"

definition flt :: "double \<Rightarrow> double \<Rightarrow> bool" where
  "flt x y = (case (ratio x, ratio y) of ((n1, d1), (n2, d2)) \<Rightarrow> n1 * d2 < n2 * d1)"

definition fle :: "double \<Rightarrow> double \<Rightarrow> bool" where
  "fle x y = (case (ratio x, ratio y) of ((n1, d1), (n2, d2)) \<Rightarrow> n1 * d2 \<le> n2 * d1)"

text \<open>
  The builtins \<open>max(x, y)\<close> and \<open>min(x, y)\<close> keep the first argument unless the second is
  strictly greater (smaller).
\<close>

definition py_max :: "double \<Rightarrow> double \<Rightarrow> double" where
  "py_max x y = (if flt x y then y else x)"

definition py_min :: "double \<Rightarrow> double \<Rightarrow> double" where
  "py_min x y = (if flt y x then y else x)"

text \<open>
  \<open>round(x, ndigits)\<close> on a float: the exact value of \<open>x\<close> is rounded to \<open>ndigits\<close>
  decimal places, ties to even, and the result is the double nearest to that decimal.
\<close>

definition py_round :: "double \<Rightarrow> nat \<Rightarrow> double" where
  "py_round x ndigits =
     (case ratio x of
        (n, d) \<Rightarrow> nearest (rhe_div (n * 10 ^ ndigits) d) (10 ^ ndigits))"

text \<open>A number in a data frame column: an \<open>int64\<close> or a \<open>float64\<close> cell.\<close>

datatype number = PyInt int | PyFloat double

subsection \<open>The random generator\<close>

text \<open>
  The module-global generator of \<open>random\<close>: a state \<open>'g\<close>, \<open>random.seed(n)\<close> replacing it
  and \<open>random.random()\<close> drawing from it. Both are parameters, so that a property holds for
  every sequence of draws. \<open>random.uniform(a, b)\<close> is \<open>a + (b - a) * random()\<close>.
\<close>

record 'g rng =
  rng_seed :: "int \<Rightarrow> 'g"
  rng_random :: "'g \<Rightarrow> double \<times> 'g"

definition uniform :: "'g rng \<Rightarrow> double \<Rightarrow> double \<Rightarrow> 'g \<Rightarrow> double \<times> 'g" where
  "uniform R a b g =
     (case rng_random R g of (u, g') \<Rightarrow> (fadd a (fmul (fsub b a) u), g'))"

section \<open>docs/sample\_data.py\<close>

text \<open>A data frame is the list of its rows; every frame here has a \<open>date\<close> column.\<close>

record obs =
  date :: int

record sopr_row = obs +
  sopr :: double

record price_usd_row = obs +
  price_usd :: int

record price_row = obs +
  price :: number

text \<open>
  The loop of \<open>generate_sample_sopr_data\<close>: \<open>n\<close> iterations left, the running value
  \<open>current\<close>, the generator state and the list \<open>sopr_values\<close> built so far.
\<close>

fun sopr_loop ::
  "'g rng \<Rightarrow> nat \<Rightarrow> double \<Rightarrow> 'g \<Rightarrow> double list \<Rightarrow> double list \<times> 'g" where
  "sopr_loop R 0 current g sopr_values = (sopr_values, g)"
| "sopr_loop R (Suc n) current g sopr_values =
     (case uniform R (fneg (nearest 3 100)) (nearest 3 100) g of
        (change, g') \<Rightarrow>
          (let current' = py_max (nearest 85 100) (py_min (nearest 115 100) (fadd current change))
           in sopr_loop R n current' g' (sopr_values @ [py_round current' 4])))"

text \<open>
  \<open>generate_sample_sopr_data(days)\<close> at clock reading \<open>today\<close> and generator state \<open>g\<close>:
  the frame (or the exception) and the generator state it leaves.
\<close>

definition generate_sample_sopr_data ::
  "'g rng \<Rightarrow> date \<Rightarrow> int \<Rightarrow> 'g \<Rightarrow> (exn + sopr_row list) \<times> 'g" where
  "generate_sample_sopr_data R today days g =
     (let g0 = rng_seed R 42;
          end_date = today
      in case comprehension
                (\<lambda>i. case timedelta i of Inl e \<Rightarrow> Inl e | Inr td \<Rightarrow> date_sub end_date td)
                (range days) of
           Inl e \<Rightarrow> (Inl e, g0)
         | Inr dates \<Rightarrow>
             (case sopr_loop R (nat days) (nearest 1 1) g0 [] of
                (sopr_values, g1) \<Rightarrow>
                  (Inr (map2 (\<lambda>d v. \<lparr>date = d, sopr = v\<rparr>) dates sopr_values), g1)))"


section \<open>Date strings\<close>

text \<open>
  A Python \<open>str\<close> is a list of characters with code points below 256. The digits that
  \<open>\d\<close> accepts there are the ASCII ones.
\<close>

definition is_digit :: "char \<Rightarrow> bool" where
  "is_digit c = (48 \<le> (of_char c :: nat) \<and> (of_char c :: nat) \<le> 57)"

definition one_of :: "string \<Rightarrow> char \<Rightarrow> bool" where
  "one_of cs c = (c \<in> set cs)"

text \<open>
  \<open>eat p s\<close> matches a sequence of character classes at the head of \<open>s\<close> and gives the
  matched text and the rest; \<open>alts ps s\<close> lists the alternatives of \<open>ps\<close> that match, in
  the order the regular expression tries them.
\<close>

fun eat :: "(char \<Rightarrow> bool) list \<Rightarrow> string \<Rightarrow> (string \<times> string) option" where
  "eat [] s = Some ([], s)"
| "eat (p # ps) [] = None"
| "eat (p # ps) (c # cs) =
     (if p c then (case eat ps cs of None \<Rightarrow> None | Some (m, r) \<Rightarrow> Some (c # m, r))
      else None)"

definition alts :: "(char \<Rightarrow> bool) list list \<Rightarrow> string \<Rightarrow> (string \<times> string) list" where
  "alts ps s = List.map_filter (\<lambda>p. eat p s) ps"

text \<open>
  The directives of \<open>'%Y-%m-%d'\<close> as \<open>_strptime\<close> compiles them:
  \<open>%Y\<close> is \<open>\d\d\d\d\<close>, \<open>%m\<close> is \<open>1[0-2]|0[1-9]|[1-9]\<close> and
  \<open>%d\<close> is \<open>3[0-1]|[1-2]\d|0[1-9]|[1-9]| [1-9]\<close>.
\<close>

definition re_Y :: "(char \<Rightarrow> bool) list" where
  "re_Y = [is_digit, is_digit, is_digit, is_digit]"

definition re_m :: "(char \<Rightarrow> bool) list list" where
  "re_m = [[one_of ''1'', one_of ''012''],
           [one_of ''0'', one_of ''123456789''],
           [one_of ''123456789'']]"

definition re_d :: "(char \<Rightarrow> bool) list list" where
  "re_d = [[one_of ''3'', one_of ''01''],
           [one_of ''12'', is_digit],
           [one_of ''0'', one_of ''123456789''],
           [one_of ''123456789''],
           [one_of '' '', one_of ''123456789'']]"

text \<open>
  \<open>format_regex.match(data_string)\<close>: anchored at the start only, backtracking over the
  alternatives of the month; the day is last, so its first matching alternative is taken.
  The result is the three groups and the unconverted rest.
\<close>

fun first_some :: "('a \<Rightarrow> 'b option) \<Rightarrow> 'a list \<Rightarrow> 'b option" where
  "first_some f [] = None"
| "first_some f (x # xs) = (case f x of None \<Rightarrow> first_some f xs | Some y \<Rightarrow> Some y)"

definition match_ymd :: "string \<Rightarrow> (string \<times> string \<times> string \<times> string) option" where
  "match_ymd s =
     (case eat re_Y s of
        None \<Rightarrow> None
      | Some (Y, r1) \<Rightarrow>
          (case eat [one_of ''-''] r1 of
             None \<Rightarrow> None
           | Some (_, r2) \<Rightarrow>
               first_some
                 (\<lambda>(m, r3).
                    case eat [one_of ''-''] r3 of
                      None \<Rightarrow> None
                    | Some (_, r4) \<Rightarrow>
                        (case alts re_d r4 of
                           [] \<Rightarrow> None
                         | (d, r5) # _ \<Rightarrow> Some (Y, m, d, r5)))
                 (alts re_m r2)))"

text \<open>\<open>int(s)\<close> on a group: decimal digits, a leading blank ignored.\<close>

definition int_of_group :: "string \<Rightarrow> nat" where
  "int_of_group s = foldl (\<lambda>n c. 10 * n + (of_char c - 48)) 0 (filter is_digit s)"

text \<open>The calendar of \<open>datetime\<close>: leap years, month lengths, field check and ordinal.\<close>

definition is_leap :: "nat \<Rightarrow> bool" where
  "is_leap year = (year mod 4 = 0 \<and> (year mod 100 \<noteq> 0 \<or> year mod 400 = 0))"

definition days_in_month :: "nat \<Rightarrow> nat \<Rightarrow> nat" where
  "days_in_month year month =
     (if month = 2 \<and> is_leap year then 29
      else [31, 28, 31, 30, 31, 30, 31, 31, 30, 31, 30, 31] ! (month - 1))"

definition days_before_year :: "nat \<Rightarrow> nat" where
  "days_before_year year =
     (let y = year - 1 in y * 365 + y div 4 - y div 100 + y div 400)"

definition days_before_month :: "nat \<Rightarrow> nat \<Rightarrow> nat" where
  "days_before_month year month =
     [0, 31, 59, 90, 120, 151, 181, 212, 243, 273, 304, 334] ! (month - 1)
     + (if 2 < month \<and> is_leap year then 1 else 0)"

definition check_date_fields :: "nat \<Rightarrow> nat \<Rightarrow> nat \<Rightarrow> bool" where
  "check_date_fields year month day =
     (1 \<le> year \<and> year \<le> 9999 \<and> 1 \<le> month \<and> month \<le> 12
      \<and> 1 \<le> day \<and> day \<le> days_in_month year month)"

definition ymd2ord :: "nat \<Rightarrow> nat \<Rightarrow> nat \<Rightarrow> date" where
  "ymd2ord year month day = int (days_before_year year + days_before_month year month + day)"

text \<open>
  \<open>datetime.strptime(s, '%Y-%m-%d')\<close>: \<open>ValueError\<close> when the string does not match the
  format, when unconverted data remains, or when the fields are no calendar date;
  otherwise the date (the time of day is midnight).
\<close>

definition strptime :: "string \<Rightarrow> exn + date" where
  "strptime s =
     (case match_ymd s of
        None \<Rightarrow> Inl ValueError
      | Some (Y, m, d, rest) \<Rightarrow>
          if rest \<noteq> [] then Inl ValueError
          else (let year = int_of_group Y; month = int_of_group m; day = int_of_group d
                in if check_date_fields year month day then Inr (ymd2ord year month day)
                   else Inl ValueError))"

section \<open>pandas: timestamps, comparison with a string, boolean selection\<close>

text \<open>
  A \<open>Timestamp\<close> is its count of nanoseconds since 1970-01-01 (ordinal 719163); the bounds
  of \<open>datetime64[ns]\<close> are outside the model. \<open>pd.to_datetime\<close> of a date is its midnight.
\<close>

type_synonym timestamp = int

definition to_datetime :: "date \<Rightarrow> timestamp" where
  "to_datetime d = (d - 719163) * 86400000000000"

text \<open>
  Comparing a datetime column with a \<open>str\<close>: pandas first converts the string with its own
  parser, the parameter \<open>parse\<close> (more liberal than \<open>strptime\<close>); a string it cannot
  convert makes an ordering comparison raise \<open>TypeError\<close>.
\<close>

definition cmp_str ::
  "(timestamp \<Rightarrow> timestamp \<Rightarrow> bool) \<Rightarrow> (string \<Rightarrow> timestamp option) \<Rightarrow>
   timestamp list \<Rightarrow> string \<Rightarrow> exn + bool list" where
  "cmp_str rel parse column s =
     (case parse s of
        None \<Rightarrow> Inl TypeError
      | Some t \<Rightarrow> Inr (map (\<lambda>x. rel x t) column))"

text \<open>\<open>df[mask]\<close> keeps the rows whose mask entry is true, in order.\<close>

definition select :: "'a list \<Rightarrow> bool list \<Rightarrow> 'a list" where
  "select df keep = map fst (filter snd (zip df keep))"

text \<open>
  The sample branch shared by both query functions:
  \<open>sample['date'] = pd.to_datetime(sample['date'])\<close>, the two comparisons (the one with
  \<open>start_date\<close> first), their conjunction and the selection.
\<close>

definition filter_sample ::
  "(string \<Rightarrow> timestamp option) \<Rightarrow> ('a obs_scheme) list \<Rightarrow> string \<Rightarrow> string \<Rightarrow>
   exn + ('a obs_scheme) list" where
  "filter_sample parse df start_date end_date =
     (let sample = map (\<lambda>r. r\<lparr>date := to_datetime (date r)\<rparr>) df
      in case cmp_str (\<ge>) parse (map date sample) start_date of
           Inl e \<Rightarrow> Inl e
         | Inr ge_start \<Rightarrow>
             (case cmp_str (\<le>) parse (map date sample) end_date of
                Inl e \<Rightarrow> Inl e
              | Inr le_end \<Rightarrow> Inr (select sample (map2 (\<and>) ge_start le_end))))"

section \<open>config.py and the services around the program\<close>

text \<open>
  \<open>platform\<close> is what both programs read from their surroundings: the configuration
  (\<open>GCP_PROJECT_ID\<close> is \<open>None\<close> when the variable is unset) and whether constructing
  \<open>bigquery.Client\<close> raises.
\<close>

record platform =
  GCP_PROJECT_ID :: "string option"
  BQ_DATASET :: string
  Client :: "exn option"

definition TABLE_DAILY_PRICES :: "'a platform_scheme \<Rightarrow> string" where
  "TABLE_DAILY_PRICES P =
     (case GCP_PROJECT_ID P of None \<Rightarrow> ''None'' | Some p \<Rightarrow> p)
     @ ''.'' @ BQ_DATASET P @ ''.daily_prices''"

definition UTXO_START_DATE :: string where
  "UTXO_START_DATE = ''2019-01-01''"

definition validate_config :: "'a platform_scheme \<Rightarrow> exn + bool" where
  "validate_config P =
     (case GCP_PROJECT_ID P of
        None \<Rightarrow> Inl ValueError
      | Some p \<Rightarrow> if p = [] then Inl ValueError else Inr True)"

section \<open>bitcoin-sopr-dashboard/src/queries.py\<close>

text \<open>
  The surroundings of the query layer: the two imported sample constants, the pandas
  string parser, the outcome of reading \<open>sql/sopr_query.sql\<close>, and the outcome of
  \<open>client.query(...).to_dataframe()\<close> for the SOPR query (given its SQL text and the two
  bound parameters) and for the price query (given the table name in its SQL text and
  the two bound parameters).
\<close>

record env = platform +
  SAMPLE_SOPR_DATA :: "sopr_row list"
  SAMPLE_PRICES :: "price_usd_row list"
  Timestamp :: "string \<Rightarrow> timestamp option"
  read_sql :: "exn + string"
  sopr_query :: "string \<Rightarrow> string \<Rightarrow> string \<Rightarrow> exn + sopr_row list"
  price_query :: "string \<Rightarrow> string \<Rightarrow> string \<Rightarrow> exn + price_row list"

text \<open>The lines the query functions print, in order, are part of their result.\<close>

datatype line =
    UsingSampleSopr | UsingSamplePrice
  | QueryingSopr string string | QueryingPrice string string
  | Retrieved nat | RetrievedPrices nat
  | BigQueryError exn | SqlFileNotFound | UnexpectedError exn
  | FallingBack

definition printing :: "line list \<Rightarrow> line list \<times> 'a \<Rightarrow> line list \<times> 'a" where
  "printing ls r = (ls @ fst r, snd r)"

text \<open>\<open>s.replace(old, new)\<close> for a non-empty \<open>old\<close>; \<open>k\<close> characters of a match are still to skip.\<close>

fun replace_skip :: "string \<Rightarrow> string \<Rightarrow> nat \<Rightarrow> string \<Rightarrow> string" where
  "replace_skip old new k [] = []"
| "replace_skip old new (Suc k) (c # cs) = replace_skip old new k cs"
| "replace_skip old new 0 (c # cs) =
     (if take (length old) (c # cs) = old
      then new @ replace_skip old new (length old - 1) cs
      else c # replace_skip old new 0 cs)"

definition replace :: "string \<Rightarrow> string \<Rightarrow> string \<Rightarrow> string" where
  "replace old new s = replace_skip old new 0 s"

text \<open>
  The date check of both functions: the two \<open>strptime\<close> calls, a \<open>ValueError\<close> re-raised
  as \<open>ValueError\<close>.
\<close>

definition validate_dates :: "string \<Rightarrow> string \<Rightarrow> exn + unit" where
  "validate_dates start_date end_date =
     (case strptime start_date of
        Inl e \<Rightarrow> (if e = ValueError then Inl ValueError else Inl e)
      | Inr _ \<Rightarrow>
          (case strptime end_date of
             Inl e \<Rightarrow> (if e = ValueError then Inl ValueError else Inl e)
           | Inr _ \<Rightarrow> Inr ()))"

text \<open>The body of the \<open>try\<close> block of \<open>query_sopr\<close>: what it printed and how it ended.\<close>

definition try_sopr :: "env \<Rightarrow> string \<Rightarrow> string \<Rightarrow> line list \<times> (exn + sopr_row list)" where
  "try_sopr E start_date end_date =
     (case read_sql E of
        Inl e \<Rightarrow> ([], Inl e)
      | Inr sql_template \<Rightarrow>
          (case GCP_PROJECT_ID E of
             None \<Rightarrow> ([], Inl TypeError)
           | Some project_id \<Rightarrow>
               (let sql = replace ''{project_id}'' project_id sql_template
                in case Client E of
                     Some e \<Rightarrow> ([], Inl e)
                   | None \<Rightarrow>
                       printing [QueryingSopr start_date end_date]
                         (case sopr_query E sql start_date end_date of
                            Inl e \<Rightarrow> ([], Inl e)
                          | Inr df \<Rightarrow> ([Retrieved (length df)], Inr df)))))"

function (domintros) query_sopr ::
  "env \<Rightarrow> string \<Rightarrow> string \<Rightarrow> bool \<Rightarrow> line list \<times> (exn + sopr_row list)" where
  "query_sopr E start_date end_date True =
     printing [UsingSampleSopr]
       ([], filter_sample (Timestamp E) (SAMPLE_SOPR_DATA E) start_date end_date)"
| "query_sopr E start_date end_date False =
     (case validate_dates start_date end_date of
        Inl e \<Rightarrow> ([], Inl e)
      | Inr _ \<Rightarrow>
          (case try_sopr E start_date end_date of
             (out, Inr df) \<Rightarrow> (out, Inr df)
           | (out, Inl e) \<Rightarrow>
               if is_GoogleCloudError e then
                 printing (out @ [BigQueryError e, FallingBack])
                   (query_sopr E start_date end_date True)
               else if e = FileNotFoundError then
                 printing (out @ [SqlFileNotFound, FallingBack])
                   (query_sopr E start_date end_date True)
               else if is_Exception e then
                 printing (out @ [UnexpectedError e, FallingBack])
                   (query_sopr E start_date end_date True)
               else (out, Inl e)))"
  by pat_completeness auto
termination
  by (relation "measure (\<lambda>(E, s, e, use_sample). if use_sample then 0 else 1)") auto

text \<open>The body of the \<open>try\<close> block of \<open>query_prices\<close>.\<close>

definition try_prices :: "env \<Rightarrow> string \<Rightarrow> string \<Rightarrow> line list \<times> (exn + price_row list)" where
  "try_prices E start_date end_date =
     (case Client E of
        Some e \<Rightarrow> ([], Inl e)
      | None \<Rightarrow>
          printing [QueryingPrice start_date end_date]
            (case price_query E (TABLE_DAILY_PRICES E) start_date end_date of
               Inl e \<Rightarrow> ([], Inl e)
             | Inr df \<Rightarrow> ([RetrievedPrices (length df)], Inr df)))"

text \<open>\<open>result.rename(columns={'price_usd': 'price'})\<close>; the sample frame always has that column.\<close>

definition rename_price :: "price_usd_row list \<Rightarrow> price_row list" where
  "rename_price df = map (\<lambda>r. \<lparr>date = date r, price = PyInt (price_usd r)\<rparr>) df"

function (domintros) query_prices ::
  "env \<Rightarrow> string \<Rightarrow> string \<Rightarrow> bool \<Rightarrow> line list \<times> (exn + price_row list)" where
  "query_prices E start_date end_date True =
     printing [UsingSamplePrice]
       ([], case filter_sample (Timestamp E) (SAMPLE_PRICES E) start_date end_date of
              Inl e \<Rightarrow> Inl e
            | Inr result \<Rightarrow> Inr (rename_price result))"
| "query_prices E start_date end_date False =
     (case validate_dates start_date end_date of
        Inl e \<Rightarrow> ([], Inl e)
      | Inr _ \<Rightarrow>
          (case try_prices E start_date end_date of
             (out, Inr df) \<Rightarrow> (out, Inr df)
           | (out, Inl e) \<Rightarrow>
               if is_GoogleCloudError e then
                 printing (out @ [BigQueryError e, FallingBack])
                   (query_prices E start_date end_date True)
               else if is_Exception e then
                 printing (out @ [UnexpectedError e, FallingBack])
                   (query_prices E start_date end_date True)
               else (out, Inl e)))"
  by pat_completeness auto
termination
  by (relation "measure (\<lambda>(E, s, e, use_sample). if use_sample then 0 else 1)") auto

section \<open>bitcoin-sopr-dashboard/etl/load\_prices.py\<close>

text \<open>
  The warehouse: the rows of each existing table, and the load jobs completed so far.
  Its requests are served; the failures modelled are a table that does not exist
  (\<open>NotFound\<close>) and a load job that fails.
\<close>

record ohlcv = obs +
  open' :: double
  high :: double
  low :: double
  close :: double
  volume :: number

record warehouse =
  tables :: "string \<rightharpoonup> ohlcv list"
  load_jobs :: "(string \<times> ohlcv list) list"

text \<open>A bar as \<open>Ticker.history\<close> returns it, after \<open>reset_index\<close>.\<close>

record raw_bar =
  Date :: timestamp
  Open :: double
  High :: double
  Low :: double
  Close :: double
  Volume :: number
  Dividends :: double
  Stock_Splits :: double

text \<open>
  The surroundings of the job: what \<open>input\<close> returns (or raises), the clock reading
  \<open>datetime.now().strftime("%Y-%m-%d")\<close>, the outcome of \<open>Ticker.history\<close> for a date
  window, and whether the load job fails (then nothing is written).
\<close>

record job_env = platform +
  stdin :: "exn + string"
  now :: string
  history :: "string \<Rightarrow> string \<Rightarrow> exn + raw_bar list"
  load_job :: "exn option"

text \<open>\<open>str.strip()\<close> and \<open>str.lower()\<close> on code points below 256.\<close>

definition isspace :: "char \<Rightarrow> bool" where
  "isspace c = ((of_char c :: nat) \<in> {9, 10, 11, 12, 13, 28, 29, 30, 31, 32, 133, 160})"

definition strip :: "string \<Rightarrow> string" where
  "strip s = rev (dropWhile isspace (rev (dropWhile isspace s)))"

definition lower_char :: "char \<Rightarrow> char" where
  "lower_char c =
     (let n = (of_char c :: nat)
      in if (65 \<le> n \<and> n \<le> 90) \<or> (192 \<le> n \<and> n \<le> 222 \<and> n \<noteq> 215)
         then char_of (n + 32) else c)"

definition lower :: "string \<Rightarrow> string" where
  "lower s = map lower_char s"

definition get_table :: "warehouse \<Rightarrow> string \<Rightarrow> exn + ohlcv list" where
  "get_table W table_id =
     (case tables W table_id of None \<Rightarrow> Inl NotFound | Some rows \<Rightarrow> Inr rows)"

definition check_existing_data :: "warehouse \<Rightarrow> string \<Rightarrow> exn + int" where
  "check_existing_data W table_id =
     (case get_table W table_id of
        Inl e \<Rightarrow> (if e = NotFound then Inr 0 else Inl e)
      | Inr rows \<Rightarrow> Inr (int (length rows)))"

definition dt_date :: "timestamp \<Rightarrow> date" where
  "dt_date t = t div 86400000000000 + 719163"

definition fetch_btc_prices :: "job_env \<Rightarrow> string \<Rightarrow> string \<Rightarrow> exn + ohlcv list" where
  "fetch_btc_prices E start_date end_date =
     (case history E start_date end_date of
        Inl e \<Rightarrow> Inl e
      | Inr df \<Rightarrow>
          Inr (map (\<lambda>b. \<lparr>date = dt_date (Date b), open' = Open b, high = High b,
                          low = Low b, close = Close b, volume = Volume b\<rparr>) df))"

text \<open>\<open>WRITE_TRUNCATE\<close>: a completed load job replaces the rows of the table.\<close>

definition upload_to_bigquery ::
  "job_env \<Rightarrow> warehouse \<Rightarrow> ohlcv list \<Rightarrow> string \<Rightarrow> exn option \<times> warehouse" where
  "upload_to_bigquery E W df table_id =
     (case load_job E of
        Some e \<Rightarrow> (Some e, W)
      | None \<Rightarrow>
          (None, W\<lparr>tables := (tables W)(table_id \<mapsto> df),
                    load_jobs := load_jobs W @ [(table_id, df)]\<rparr>))"

text \<open>
  \<open>main\<close> returns \<open>None\<close> on every path; the model names the place where it ends:
  \<open>Cancelled\<close> after printing "Operation cancelled", \<open>NoData\<close> after "No data fetched
  from yfinance", \<open>Complete n\<close> after the final count, \<open>Raised e\<close> for an exception
  that leaves \<open>main\<close>.
\<close>

datatype exit = Cancelled | NoData | Complete int | Raised exn

text \<open>The confirmation step: \<open>Some x\<close> when \<open>main\<close> ends there.\<close>

definition confirm :: "job_env \<Rightarrow> int \<Rightarrow> exit option" where
  "confirm E existing_rows =
     (if existing_rows > 0 then
        (case stdin E of
           Inl e \<Rightarrow> Some (Raised e)
         | Inr answer \<Rightarrow>
             (let response = lower (strip answer)
              in if response \<notin> set [''yes'', ''y''] then Some Cancelled else None))
      else None)"

definition main :: "job_env \<Rightarrow> warehouse \<Rightarrow> exit \<times> warehouse" where
  "main E W =
     (case validate_config E of
        Inl e \<Rightarrow> (Raised e, W)
      | Inr _ \<Rightarrow>
     (case Client E of
        Some e \<Rightarrow> (Raised e, W)
      | None \<Rightarrow>
     (case check_existing_data W (TABLE_DAILY_PRICES E) of
        Inl e \<Rightarrow> (Raised e, W)
      | Inr existing_rows \<Rightarrow>
     (case confirm E existing_rows of
        Some x \<Rightarrow> (x, W)
      | None \<Rightarrow>
     (let start_date = UTXO_START_DATE; end_date = now E
      in case fetch_btc_prices E start_date end_date of
           Inl e \<Rightarrow> (Raised e, W)
         | Inr df \<Rightarrow>
             if df = [] then (NoData, W)
             else (case upload_to_bigquery E W df (TABLE_DAILY_PRICES E) of
                     (Some e, W') \<Rightarrow> (Raised e, W')
                   | (None, W') \<Rightarrow>
                       (case check_existing_data W' (TABLE_DAILY_PRICES E) of
                          Inl e \<Rightarrow> (Raised e, W')
                        | Inr final_count \<Rightarrow> (Complete final_count, W'))))))))"

section \<open>Concrete surroundings used to run the model\<close>

text \<open>
  A generator whose state counts the draws: six draws near the top of the unit interval
  (\<open>8962163258467287 / 2 ^ 53\<close>, about 0.995), then a quarter.
\<close>

definition demo_rng :: "nat rng" where
  "demo_rng =
     \<lparr>rng_seed = (\<lambda>n. 0),
      rng_random = (\<lambda>g. (if g < 6 then Double 8962163258467287 (- 53)
                            else Double 2251799813685248 (- 53), Suc g))\<rparr>"

text \<open>
  A stand-in for the pandas parser that reads exactly the strings \<open>strptime\<close> accepts, as
  the midnight of that date.
\<close>

definition iso_Timestamp :: "string \<Rightarrow> timestamp option" where
  "iso_Timestamp s = (case strptime s of Inl e \<Rightarrow> None | Inr d \<Rightarrow> Some (to_datetime d))"

text \<open>
  Surroundings of the query layer in which every live query fails: three sample rows per
  series for 2024-01-29 to 2024-01-31 (ordinals 738914 to 738916), a project, no fault in
  the client, and both queries raising.
\<close>

definition demo_env :: env where
  "demo_env =
     \<lparr>GCP_PROJECT_ID = Some ''demo'', BQ_DATASET = ''bitcoin_analytics'', Client = None,
      SAMPLE_SOPR_DATA =
        [\<lparr>date = 738916, sopr = nearest 103 100\<rparr>, \<lparr>date = 738915, sopr = nearest 101 100\<rparr>,
         \<lparr>date = 738914, sopr = nearest 98 100\<rparr>],
      SAMPLE_PRICES =
        [\<lparr>date = 738914, price_usd = 42000\<rparr>, \<lparr>date = 738915, price_usd = 42100\<rparr>,
         \<lparr>date = 738916, price_usd = 42200\<rparr>],
      Timestamp = iso_Timestamp,
      read_sql = Inr ''select * from {project_id}.sopr'',
      sopr_query = (\<lambda>sql s e. Inl GoogleCloudError),
      price_query = (\<lambda>table s e. Inl OtherError)\<rparr>"

text \<open>The same surroundings with both live queries succeeding with no rows.\<close>

definition empty_live_env :: env where
  "empty_live_env =
     demo_env\<lparr>sopr_query := (\<lambda>sql s e. Inr []), price_query := (\<lambda>table s e. Inr [])\<rparr>"


text \<open>
  Surroundings of the ingestion job: a configured project, a target table that holds 100
  rows, an operator who answers \<open>" No "\<close>, and a market-data source with nothing to return.
\<close>

definition demo_bar :: ohlcv where
  "demo_bar =
     \<lparr>date = 738916, open' = nearest 42000 1, high = nearest 42500 1, low = nearest 41900 1,
      close = nearest 42200 1, volume = PyInt 1000\<rparr>"

definition demo_job :: job_env where
  "demo_job =
     \<lparr>GCP_PROJECT_ID = Some ''demo'', BQ_DATASET = ''bitcoin_analytics'', Client = None,
      stdin = Inr '' No '', now = ''2024-01-31'',
      history = (\<lambda>start_date end_date. Inr []), load_job = None\<rparr>"

definition demo_warehouse :: warehouse where
  "demo_warehouse =
     \<lparr>tables = [''demo.bitcoin_analytics.daily_prices'' \<mapsto> replicate 100 demo_bar],
      load_jobs = []\<rparr>"

section \<open>Rounding to the nearest double\<close>

lemma powi_nonneg: "0 \<le> e \<Longrightarrow> (2::real) powi e = 2 ^ nat e"
  by (simp add: power_int_def)

lemma powi_neg: "e < 0 \<Longrightarrow> (2::real) powi e = 1 / 2 ^ nat (- e)"
  by (simp add: power_int_def power_one_over inverse_eq_divide)

lemma valof_Double: "valof (Double m e) = of_int m * 2 powi e"
proof (cases "0 \<le> e")
  case True
  then show ?thesis by (simp add: valof_def ratio_def powi_nonneg)
next
  case False
  then show ?thesis by (simp add: valof_def ratio_def powi_neg)
qed

lemma ratio_pos: "ratio x = (n, d) \<Longrightarrow> 0 < d"
  unfolding ratio_def by (cases "0 \<le> expo x") auto

lemma scale2_value:
  assumes "scale2 n d s = (a, b)" "0 < d"
  shows "0 < b \<and> real_of_int a / real_of_int b = real_of_int n / real_of_int d * 2 powi s"
proof (cases "0 \<le> s")
  case True
  then have "a = n * 2 ^ nat s" "b = d" using assms(1) by (simp_all add: scale2_def)
  then show ?thesis using assms(2) True by (simp add: powi_nonneg)
next
  case False
  then have "a = n" "b = d * 2 ^ nat (- s)" using assms(1) by (simp_all add: scale2_def)
  then show ?thesis using assms(2) False by (simp add: powi_neg)
qed

lemma rhe_div_err:
  assumes "0 < b"
  shows "\<bar>real_of_int (rhe_div a b) - real_of_int a / real_of_int b\<bar> \<le> 1 / 2"
proof -
  define q r where "q = a div b" and "r = a mod b"
  have a: "a = q * b + r" by (simp add: q_def r_def)
  have r: "0 \<le> r" "r < b" using assms by (simp_all add: r_def)
  have ab: "real_of_int a / real_of_int b = real_of_int q + real_of_int r / real_of_int b"
    using assms by (simp add: a field_simps)
  have rb: "0 \<le> real_of_int r / real_of_int b" "real_of_int r / real_of_int b < 1"
    using r assms by simp_all
  consider "2 * r < b" | "b < 2 * r" | "2 * r = b" by linarith
  then show ?thesis
  proof cases
    case 1
    then have "real_of_int r / real_of_int b < 1 / 2" using assms by (auto simp: field_simps)
    moreover have "rhe_div a b = q" using 1 by (simp add: rhe_div_def Let_def q_def r_def)
    ultimately show ?thesis using rb ab by simp
  next
    case 2
    then have "1 / 2 < real_of_int r / real_of_int b" using assms by (auto simp: field_simps)
    moreover have "rhe_div a b = q + 1" using 2 by (simp add: rhe_div_def Let_def q_def r_def)
    ultimately show ?thesis using rb ab by simp
  next
    case 3
    then have "real_of_int r / real_of_int b = 1 / 2" using assms by (auto simp: field_simps)
    moreover have "rhe_div a b = q \<or> rhe_div a b = q + 1"
      using 3 by (simp add: rhe_div_def Let_def q_def r_def)
    ultimately show ?thesis using ab by auto
  qed
qed

lemma floor_log2_le:
  assumes "0 < n" "0 < d"
  shows "2 powi (floor_log2 n d) \<le> real_of_int n / real_of_int d"
proof -
  define k where "k = bitlen n - bitlen d"
  obtain a b where ab: "scale2 n d (- k) = (a, b)" by (cases "scale2 n d (- k)")
  from scale2_value[OF ab assms(2)]
  have b: "0 < b" and v: "real_of_int a / real_of_int b = real_of_int n / real_of_int d * 2 powi (- k)"
    by simp_all
  show ?thesis
  proof (cases "b \<le> a")
    case True
    then have "1 \<le> real_of_int a / real_of_int b" using b by simp
    then have "1 \<le> real_of_int n / real_of_int d * 2 powi (- k)" using v by simp
    then have "2 powi k * 1 \<le> 2 powi k * (real_of_int n / real_of_int d * 2 powi (- k))"
      by (intro mult_left_mono) simp_all
    also have "\<dots> = real_of_int n / real_of_int d"
      by (simp add: power_int_minus)
    finally have "2 powi k \<le> real_of_int n / real_of_int d" by simp
    moreover have "floor_log2 n d = k" using True ab by (simp add: floor_log2_def k_def Let_def)
    ultimately show ?thesis by simp
  next
    case False
    have fl: "floor_log2 n d = k - 1" using False ab by (simp add: floor_log2_def k_def Let_def)
    have bn: "1 \<le> bitlen n" "0 \<le> bitlen d"
      using assms by (simp_all add: bitlen_alt_def)
    have "2 ^ nat (bitlen n - 1) \<le> n" using bitlen_bounds[OF assms(1)] by simp
    then have "real_of_int (2 ^ nat (bitlen n - 1)) \<le> real_of_int n" by (rule of_int_le_iff[THEN iffD2])
    then have n: "2 powi (bitlen n - 1) \<le> real_of_int n" using bn by (simp add: power_int_def)
    have "d < 2 ^ nat (bitlen d)" using bitlen_bounds[OF assms(2)] by simp
    then have "real_of_int d < real_of_int (2 ^ nat (bitlen d))" by (rule of_int_less_iff[THEN iffD2])
    then have d: "real_of_int d \<le> 2 powi (bitlen d)" using bn by (simp add: power_int_def)
    have "2 powi (k - 1) = 2 powi (bitlen n - 1) / (2 powi (bitlen d) :: real)"
      by (simp add: k_def power_int_diff)
    also have "\<dots> \<le> real_of_int n / real_of_int d"
      using n d assms by (intro frac_le) simp_all
    finally show ?thesis using fl by simp
  qed
qed

lemma nearest_err:
  assumes "0 < d"
  shows "\<bar>valof (nearest n d) - real_of_int n / real_of_int d\<bar>
         \<le> \<bar>real_of_int n / real_of_int d\<bar> / 2 ^ 53"
proof (cases "n = 0")
  case True
  then show ?thesis by (simp add: nearest_def valof_Double)
next
  case False
  define f where "f = floor_log2 \<bar>n\<bar> d"
  define s where "s = 52 - f"
  obtain a b where ab: "scale2 n d s = (a, b)" by (cases "scale2 n d s")
  define m where "m = rhe_div a b"
  from scale2_value[OF ab assms]
  have b: "0 < b" and v: "real_of_int a / real_of_int b = real_of_int n / real_of_int d * 2 powi s"
    by simp_all
  have val: "valof (nearest n d) = real_of_int m * 2 powi (- s)"
  proof (cases "\<bar>m\<bar> = 2 ^ 53")
    case True
    then have "even m" by (metis dvd_abs_iff even_numeral even_power zero_less_numeral)
    then have "real_of_int (m div 2) = real_of_int m / 2" by (simp add: real_of_int_div)
    moreover have "2 powi (1 - s) = 2 * (2 powi (- s) :: real)"
      by (simp add: power_int_diff power_int_minus field_simps)
    moreover have "nearest n d = Double (m div 2) (1 - s)"
      using False True ab by (simp add: nearest_def Let_def f_def s_def m_def)
    ultimately show ?thesis by (simp add: valof_Double)
  next
    case F: False
    have "nearest n d = Double m (- s)"
      using False F ab by (simp add: nearest_def Let_def f_def s_def m_def)
    then show ?thesis by (simp add: valof_Double)
  qed
  have p: "(0::real) < 2 powi (- s)" by simp
  have "real_of_int m * 2 powi (- s) - real_of_int n / real_of_int d
        = (real_of_int m - real_of_int a / real_of_int b) * 2 powi (- s)"
    unfolding v by (simp add: algebra_simps power_int_minus)
  then have "\<bar>valof (nearest n d) - real_of_int n / real_of_int d\<bar>
        = \<bar>real_of_int m - real_of_int a / real_of_int b\<bar> * 2 powi (- s)"
    using val p by (simp add: abs_mult)
  also have "\<dots> \<le> 1 / 2 * 2 powi (- s)"
    using rhe_div_err[OF b, of a] p unfolding m_def by (intro mult_right_mono) simp_all
  also have "1 / 2 * 2 powi (- s) = 2 powi f / (2 ^ 53 :: real)"
    by (simp add: s_def power_int_diff power_int_minus field_simps)
  also have "\<dots> \<le> \<bar>real_of_int n / real_of_int d\<bar> / 2 ^ 53"
  proof -
    have "2 powi f \<le> real_of_int \<bar>n\<bar> / real_of_int d"
      unfolding f_def using False assms by (intro floor_log2_le) simp_all
    also have "\<dots> = \<bar>real_of_int n / real_of_int d\<bar>" using assms by simp
    finally show ?thesis by (simp add: divide_right_mono)
  qed
  finally show ?thesis .
qed


lemma valof_ratio: "ratio x = (n, d) \<Longrightarrow> valof x = real_of_int n / real_of_int d"
  by (simp add: valof_def)

lemma fle_valof: "fle x y \<longleftrightarrow> valof x \<le> valof y"
proof -
  obtain n1 d1 where x: "ratio x = (n1, d1)" by (cases "ratio x")
  obtain n2 d2 where y: "ratio y = (n2, d2)" by (cases "ratio y")
  have d: "0 < d1" "0 < d2" using ratio_pos[OF x] ratio_pos[OF y] by simp_all
  have "valof x \<le> valof y \<longleftrightarrow> real_of_int n1 * real_of_int d2 \<le> real_of_int n2 * real_of_int d1"
    using d by (simp add: valof_ratio[OF x] valof_ratio[OF y] field_simps)
  also have "\<dots> \<longleftrightarrow> n1 * d2 \<le> n2 * d1"
    by (metis of_int_le_iff of_int_mult)
  finally show ?thesis by (simp add: fle_def x y)
qed

lemma flt_valof: "flt x y \<longleftrightarrow> valof x < valof y"
proof -
  obtain n1 d1 where x: "ratio x = (n1, d1)" by (cases "ratio x")
  obtain n2 d2 where y: "ratio y = (n2, d2)" by (cases "ratio y")
  have d: "0 < d1" "0 < d2" using ratio_pos[OF x] ratio_pos[OF y] by simp_all
  have "valof x < valof y \<longleftrightarrow> real_of_int n1 * real_of_int d2 < real_of_int n2 * real_of_int d1"
    using d by (simp add: valof_ratio[OF x] valof_ratio[OF y] field_simps)
  also have "\<dots> \<longleftrightarrow> n1 * d2 < n2 * d1"
    by (metis of_int_less_iff of_int_mult)
  finally show ?thesis by (simp add: flt_def x y)
qed

lemma clamp_band:
  assumes "valof lo \<le> valof hi"
  shows "valof lo \<le> valof (py_max lo (py_min hi x)) \<and> valof (py_max lo (py_min hi x)) \<le> valof hi"
  using assms by (simp add: py_max_def py_min_def flt_valof)

lemma literal_0_85: "nearest 85 100 = Double 7656119366529843 (- 53)"
  by code_simp

lemma literal_1_15: "nearest 115 100 = Double 5179139571476070 (- 52)"
  by code_simp

lemma nearest_8500: "nearest 8500 10000 = Double 7656119366529843 (- 53)"
  by code_simp

lemma nearest_11500: "nearest 11500 10000 = Double 5179139571476070 (- 52)"
  by code_simp

lemma valof_0_85: "valof (nearest 85 100) = 7656119366529843 / 2 ^ 53"
  by (simp add: literal_0_85 valof_def ratio_def)

lemma valof_1_15: "valof (nearest 115 100) = 5179139571476070 / 2 ^ 52"
  by (simp add: literal_1_15 valof_def ratio_def)

lemma rhe_div_ge:
  assumes "0 < b" "real_of_int k - 1 / 2 < real_of_int a / real_of_int b"
  shows "k \<le> rhe_div a b"
proof -
  have "real_of_int k - 1 < real_of_int (rhe_div a b)"
    using rhe_div_err[OF assms(1), of a] assms(2) by linarith
  then show ?thesis by linarith
qed

lemma rhe_div_le:
  assumes "0 < b" "real_of_int a / real_of_int b < real_of_int k + 1 / 2"
  shows "rhe_div a b \<le> k"
proof -
  have "real_of_int (rhe_div a b) < real_of_int k + 1"
    using rhe_div_err[OF assms(1), of a] assms(2) by linarith
  then show ?thesis by linarith
qed

lemma nearest_band:
  assumes "8500 \<le> N" "N \<le> 11500"
  shows "valof (nearest 85 100) \<le> valof (nearest N 10000)
       \<and> valof (nearest N 10000) \<le> valof (nearest 115 100)"
proof -
  consider "N = 8500" | "N = 11500" | "8501 \<le> N \<and> N \<le> 11499" using assms by linarith
  then show ?thesis
  proof cases
    case 1
    then show ?thesis
      by (simp add: nearest_8500 literal_0_85 literal_1_15 valof_def ratio_def)
  next
    case 2
    then show ?thesis
      by (simp add: nearest_11500 literal_0_85 literal_1_15 valof_def ratio_def)
  next
    case 3
    define x where "x = real_of_int N / real_of_int 10000"
    have x: "8501 / 10000 \<le> x" "x \<le> 11499 / 10000" using 3 by (simp_all add: x_def)
    have "0 \<le> x" using x(1) by linarith
    then have ax: "\<bar>x\<bar> = x" by (rule abs_of_nonneg)
    have "\<bar>valof (nearest N 10000) - x\<bar> \<le> \<bar>x\<bar> / 2 ^ 53"
      unfolding x_def by (rule nearest_err) simp
    then have "\<bar>valof (nearest N 10000) - x\<bar> \<le> x / 2 ^ 53"
      by (simp only: ax)
    then have e: "x - x / 2 ^ 53 \<le> valof (nearest N 10000)" "valof (nearest N 10000) \<le> x + x / 2 ^ 53"
      by linarith+
    have "7656119366529843 / 2 ^ 53 \<le> 8501 / 10000 * (1 - 1 / (2 ^ 53 :: real))" by simp
    also have "\<dots> \<le> x * (1 - 1 / 2 ^ 53)" using x(1) by (intro mult_right_mono) simp_all
    also have "\<dots> = x - x / 2 ^ 53" by (simp add: algebra_simps)
    finally have lo: "valof (nearest 85 100) \<le> valof (nearest N 10000)"
      using e(1) by (simp only: valof_0_85)
    have "x + x / 2 ^ 53 = x * (1 + 1 / 2 ^ 53)" by (simp add: algebra_simps)
    also have "\<dots> \<le> 11499 / 10000 * (1 + 1 / (2 ^ 53 :: real))" using x(2) by (intro mult_right_mono) simp_all
    also have "\<dots> \<le> 5179139571476070 / 2 ^ 52" by simp
    finally have hi: "valof (nearest N 10000) \<le> valof (nearest 115 100)"
      using e(2) by (simp only: valof_1_15)
    from lo hi show ?thesis ..
  qed
qed

lemma py_round4_band:
  assumes "valof (nearest 85 100) \<le> valof c" "valof c \<le> valof (nearest 115 100)"
  shows "fle (nearest 85 100) (py_round c 4) \<and> fle (py_round c 4) (nearest 115 100)"
proof -
  obtain n d where c: "ratio c = (n, d)" by (cases "ratio c")
  have d: "0 < d" by (rule ratio_pos[OF c])
  define N where "N = rhe_div (n * 10 ^ 4) d"
  have v: "real_of_int (n * 10 ^ 4) / real_of_int d = valof c * 10000"
    by (simp add: valof_ratio[OF c])
  have "real_of_int 8500 - 1 / 2 < valof c * 10000"
    using assms(1) unfolding valof_0_85 by simp
  then have lo: "8500 \<le> N" unfolding N_def using d v by (intro rhe_div_ge) simp_all
  have "valof c * 10000 < real_of_int 11500 + 1 / 2"
    using assms(2) unfolding valof_1_15 by simp
  then have hi: "N \<le> 11500" unfolding N_def using d v by (intro rhe_div_le) simp_all
  have "py_round c 4 = nearest N 10000" by (simp add: py_round_def c N_def)
  then show ?thesis using nearest_band[OF lo hi] by (simp add: fle_valof)
qed

section \<open>The sample data provider\<close>

lemma sopr_loop_band:
  "\<forall>v \<in> set acc. fle (nearest 85 100) v \<and> fle v (nearest 115 100) \<Longrightarrow>
   \<forall>v \<in> set (fst (sopr_loop R n current g acc)).
      fle (nearest 85 100) v \<and> fle v (nearest 115 100)"
proof (induction n arbitrary: current g acc)
  case 0
  then show ?case by simp
next
  case (Suc n)
  obtain change g' where u: "uniform R (fneg (nearest 3 100)) (nearest 3 100) g = (change, g')"
    by (cases "uniform R (fneg (nearest 3 100)) (nearest 3 100) g")
  let ?c = "py_max (nearest 85 100) (py_min (nearest 115 100) (fadd current change))"
  have "valof (nearest 85 100) \<le> valof (nearest 115 100)"
    unfolding valof_0_85 valof_1_15 by simp
  then have "valof (nearest 85 100) \<le> valof ?c \<and> valof ?c \<le> valof (nearest 115 100)"
    by (rule clamp_band)
  then have "fle (nearest 85 100) (py_round ?c 4) \<and> fle (py_round ?c 4) (nearest 115 100)"
    by (intro py_round4_band) simp_all
  with Suc.prems
  have "\<forall>v \<in> set (acc @ [py_round ?c 4]). fle (nearest 85 100) v \<and> fle v (nearest 115 100)"
    by auto
  from Suc.IH[OF this] show ?case using u by (simp add: Let_def)
qed

lemma sopr_loop_length:
  "length (fst (sopr_loop R n current g acc)) = length acc + n"
proof (induction n arbitrary: current g acc)
  case 0
  then show ?case by simp
next
  case (Suc n)
  obtain change g' where u: "uniform R (fneg (nearest 3 100)) (nearest 3 100) g = (change, g')"
    by (cases "uniform R (fneg (nearest 3 100)) (nearest 3 100) g")
  show ?case using u Suc.IH by (simp add: Let_def)
qed

lemma comprehension_all:
  "(\<And>x. x \<in> set xs \<Longrightarrow> f x = Inr (h x)) \<Longrightarrow> comprehension f xs = Inr (map h xs)"
  by (induction xs) simp_all

lemma comprehension_only:
  "comprehension f xs = Inr ys \<Longrightarrow> (\<And>x y. f x = Inr y \<Longrightarrow> y = h x) \<Longrightarrow> ys = map h xs"
proof (induction xs arbitrary: ys)
  case Nil
  then show ?case by simp
next
  case (Cons x xs)
  from Cons.prems(1) obtain y ys' where y: "f x = Inr y" "comprehension f xs = Inr ys'" "ys = y # ys'"
    by (auto split: sum.splits)
  from Cons.IH[OF y(2) Cons.prems(2)] Cons.prems(2)[OF y(1)] y(3) show ?case by simp
qed

lemma set_range: "set (range n) = {0 ..< n}"
proof -
  have "int ` {0 ..< nat n} = {0 ..< n}"
  proof (intro set_eqI iffI)
    fix x assume "x \<in> int ` {0 ..< nat n}"
    then show "x \<in> {0 ..< n}" by auto
  next
    fix x assume "x \<in> {0 ..< n}"
    then have "x = int (nat x)" "nat x \<in> {0 ..< nat n}" by auto
    then show "x \<in> int ` {0 ..< nat n}" by (rule image_eqI)
  qed
  then show ?thesis by (simp add: range_def)
qed

lemma length_range: "length (range n) = nat n"
  by (simp add: range_def)

lemma date_step_only:
  "(case timedelta i of Inl e \<Rightarrow> Inl e | Inr td \<Rightarrow> date_sub today td) = Inr y \<Longrightarrow> y = today - i"
  by (simp add: timedelta_def date_sub_def Let_def split: if_splits)

lemma sample_dates:
  assumes "days \<le> today" "today \<le> MAXORDINAL"
  shows "comprehension
           (\<lambda>i. case timedelta i of Inl e \<Rightarrow> Inl e | Inr td \<Rightarrow> date_sub today td)
           (range days) = Inr (map (\<lambda>i. today - i) (range days))"
proof (rule comprehension_all)
  fix i assume "i \<in> set (range days)"
  then have i: "0 \<le> i" "i < days" by (simp_all add: set_range)
  with assms have "\<bar>i\<bar> \<le> 999999999" by (simp add: MAXORDINAL_def)
  moreover from i assms have "0 < today - i" "today - i \<le> MAXORDINAL" by simp_all
  ultimately show "(case timedelta i of Inl e \<Rightarrow> Inl e | Inr td \<Rightarrow> date_sub today td)
                   = Inr (today - i)"
    by (simp add: timedelta_def date_sub_def)
qed

text \<open>What a successful call returns: the dates counted back from today, paired with the walk.\<close>

lemma generate_Inr:
  assumes "fst (generate_sample_sopr_data R today days g) = Inr df"
  shows "df = map2 (\<lambda>d v. \<lparr>date = d, sopr = v\<rparr>) (map (\<lambda>i. today - i) (range days))
                (fst (sopr_loop R (nat days) (nearest 1 1) (rng_seed R 42) []))"
proof -
  let ?f = "\<lambda>i. case timedelta i of Inl e \<Rightarrow> Inl e | Inr td \<Rightarrow> date_sub today td"
  obtain vs g1 where l: "sopr_loop R (nat days) (nearest 1 1) (rng_seed R 42) [] = (vs, g1)"
    by (cases "sopr_loop R (nat days) (nearest 1 1) (rng_seed R 42) []")
  show ?thesis
  proof (cases "comprehension ?f (range days)")
    case (Inl e)
    with assms show ?thesis by (simp add: generate_sample_sopr_data_def Let_def)
  next
    case (Inr dates)
    have "dates = map (\<lambda>i. today - i) (range days)"
      using Inr by (rule comprehension_only) (rule date_step_only)
    with assms Inr l show ?thesis by (simp add: generate_sample_sopr_data_def Let_def)
  qed
qed

lemma generate_dates:
  assumes "fst (generate_sample_sopr_data R today days g) = Inr df"
  shows "map date df = map (\<lambda>i. today - i) (range days)"
proof -
  have "length (fst (sopr_loop R (nat days) (nearest 1 1) (rng_seed R 42) [])) = nat days"
    by (simp add: sopr_loop_length)
  then show ?thesis
    unfolding generate_Inr[OF assms] by (intro nth_equalityI) (simp_all add: length_range)
qed

lemma generate_band:
  assumes "fst (generate_sample_sopr_data R today days g) = Inr df"
  shows "\<forall>r \<in> set df. fle (nearest 85 100) (sopr r) \<and> fle (sopr r) (nearest 115 100)"
proof -
  have "\<forall>v \<in> set (fst (sopr_loop R (nat days) (nearest 1 1) (rng_seed R 42) [])).
          fle (nearest 85 100) v \<and> fle v (nearest 115 100)"
    by (rule sopr_loop_band) simp
  then show ?thesis unfolding generate_Inr[OF assms] by (auto dest: set_zip_rightD)
qed

lemma generate_returns:
  assumes "days \<le> today" "today \<le> MAXORDINAL"
  shows "\<exists>df. fst (generate_sample_sopr_data R today days g) = Inr df"
proof -
  obtain vs g1 where l: "sopr_loop R (nat days) (nearest 1 1) (rng_seed R 42) [] = (vs, g1)"
    by (cases "sopr_loop R (nat days) (nearest 1 1) (rng_seed R 42) []")
  show ?thesis
    using sample_dates[OF assms] l by (simp add: generate_sample_sopr_data_def Let_def)
qed

text \<open>
  C4. Whatever the generator draws, every \<open>sopr\<close> value \<open>v\<close> of a series that
  \<open>generate_sample_sopr_data(day_count)\<close> returns satisfies \<open>0.85 <= v <= 1.15\<close>, the
  comparisons being those of floats against the doubles the two literals denote; and for
  a day count from 1 up to the ordinal of today the call does return a series, of
  \<open>day_count\<close> rows.
\<close>

theorem sopr_values_in_band:
  "(\<forall>df. fst (generate_sample_sopr_data R today day_count g) = Inr df \<longrightarrow>
         (\<forall>r \<in> set df. fle (nearest 85 100) (sopr r) \<and> fle (sopr r) (nearest 115 100)))
   \<and> (1 \<le> day_count \<and> day_count \<le> today \<and> today \<le> MAXORDINAL \<longrightarrow>
         (\<exists>df. fst (generate_sample_sopr_data R today day_count g) = Inr df
               \<and> length df = nat day_count \<and> df \<noteq> []))"
proof (intro conjI allI impI)
  fix df assume "fst (generate_sample_sopr_data R today day_count g) = Inr df"
  then show "\<forall>r \<in> set df. fle (nearest 85 100) (sopr r) \<and> fle (sopr r) (nearest 115 100)"
    by (rule generate_band)
next
  assume a: "1 \<le> day_count \<and> day_count \<le> today \<and> today \<le> MAXORDINAL"
  then obtain df where df: "fst (generate_sample_sopr_data R today day_count g) = Inr df"
    using generate_returns[of day_count today R g] by blast
  have "length (map date df) = length (range day_count)"
    unfolding generate_dates[OF df] by simp
  then have "length df = nat day_count" by (simp add: length_range)
  with a df show "\<exists>df. fst (generate_sample_sopr_data R today day_count g) = Inr df
               \<and> length df = nat day_count \<and> df \<noteq> []" by auto
qed

theorem sopr_values_in_band_witness:
  "\<exists>df. fst (generate_sample_sopr_data demo_rng 739000 7 3) = Inr df
        \<and> length df = 7
        \<and> (\<forall>r \<in> set df. fle (nearest 85 100) (sopr r) \<and> fle (sopr r) (nearest 115 100))"
proof -
  have h: "(1::int) \<le> 7 \<and> (7::int) \<le> 739000 \<and> (739000::int) \<le> MAXORDINAL"
    by (simp add: MAXORDINAL_def)
  from sopr_values_in_band[of demo_rng 739000 7 3] h show ?thesis
    by auto
qed

text \<open>
  C6. The function reseeds the generator with 42 before drawing, so at one clock reading
  its output does not depend on the generator state it starts from: two calls from any two
  states, and in particular a call and the call that follows it, return the same frame.
\<close>

theorem generation_deterministic:
  "fst (generate_sample_sopr_data R today 30 g1) = fst (generate_sample_sopr_data R today 30 g2)
   \<and> (case generate_sample_sopr_data R today 30 g of
        (first, g') \<Rightarrow> fst (generate_sample_sopr_data R today 30 g') = first)"
  by (simp add: generate_sample_sopr_data_def Let_def split: sum.splits prod.splits)

section \<open>The data access layer\<close>

lemma select_map: "select xs (map p xs) = filter p xs"
  unfolding select_def by (induction xs) auto

lemma map2_conj: "map2 (\<and>) (map f xs) (map g xs) = map (\<lambda>x. f x \<and> g x) xs"
  by (induction xs) auto

lemma select_cmp:
  "select ys (map2 (\<and>) (map f (map d ys)) (map g (map d ys)))
   = filter (\<lambda>r. f (d r) \<and> g (d r)) ys"
  unfolding select_def by (induction ys) auto

lemma filter_sample_Some:
  assumes "parse s = Some ts" "parse e = Some te"
  shows "filter_sample parse df s e =
           Inr (filter (\<lambda>r. ts \<le> date r \<and> date r \<le> te)
                  (map (\<lambda>r. r\<lparr>date := to_datetime (date r)\<rparr>) df))"
proof -
  let ?sample = "map (\<lambda>r. r\<lparr>date := to_datetime (date r)\<rparr>) df"
  have "select ?sample (map2 (\<and>) (map (\<lambda>x. ts \<le> x) (map date ?sample))
                                   (map (\<lambda>x. x \<le> te) (map date ?sample)))
        = filter (\<lambda>r. ts \<le> date r \<and> date r \<le> te) ?sample"
    by (rule select_cmp)
  then show ?thesis
    unfolding filter_sample_def cmp_str_def Let_def
    by (simp only: assms option.case sum.case)
qed

lemma filter_sample_cases:
  "filter_sample parse df s e = Inl TypeError \<or> (\<exists>rows. filter_sample parse df s e = Inr rows \<and> length rows \<le> length df)"
proof (cases "parse s")
  case None
  then show ?thesis by (simp add: filter_sample_def cmp_str_def Let_def)
next
  case (Some ts)
  show ?thesis
  proof (cases "parse e")
    case None
    with Some show ?thesis by (simp add: filter_sample_def cmp_str_def Let_def)
  next
    case (Some te)
    have "length (filter (\<lambda>r. ts \<le> date r \<and> date r \<le> te)
                  (map (\<lambda>r. r\<lparr>date := to_datetime (date r)\<rparr>) df)) \<le> length df"
      by (rule order_trans[OF length_filter_le]) simp
    with \<open>parse s = Some ts\<close> Some show ?thesis
      by (simp add: filter_sample_Some)
  qed
qed

lemma to_datetime_le [simp]: "to_datetime a \<le> to_datetime b \<longleftrightarrow> a \<le> b"
  by (simp add: to_datetime_def)

lemma validate_dates_ok:
  "strptime s = Inr ds \<Longrightarrow> strptime e = Inr de \<Longrightarrow> validate_dates s e = Inr ()"
  by (simp add: validate_dates_def)

lemma strptime_ValueError: "strptime s = Inl x \<Longrightarrow> x = ValueError"
  unfolding strptime_def Let_def
  by (cases "match_ymd s") (auto split: if_splits)

lemma validate_dates_ValueError:
  "validate_dates s e = Inl x \<Longrightarrow> x = ValueError"
  unfolding validate_dates_def
  by (auto split: sum.splits if_splits dest: strptime_ValueError)

lemma try_sopr_lines:
  "FallingBack \<notin> set (fst (try_sopr E s e))"
  by (auto simp: try_sopr_def printing_def Let_def split: sum.splits option.splits)

lemma try_prices_lines:
  "FallingBack \<notin> set (fst (try_prices E s e))"
  by (auto simp: try_prices_def printing_def Let_def split: sum.splits option.splits)

lemma query_sopr_sample_lines: "fst (query_sopr E s e True) = [UsingSampleSopr]"
  by (simp add: printing_def)

lemma query_prices_sample_lines: "fst (query_prices E s e True) = [UsingSamplePrice]"
  by (simp add: printing_def)

declare query_sopr.simps(2) [simp del] query_prices.simps(2) [simp del]

lemma query_sopr_live:
  assumes "validate_dates s e = Inr ()"
  shows "query_sopr E s e False =
     (case snd (try_sopr E s e) of
        Inr df \<Rightarrow> try_sopr E s e
      | Inl x \<Rightarrow> if is_Exception x
                 then (fst (try_sopr E s e)
                        @ [if is_GoogleCloudError x then BigQueryError x
                           else if x = FileNotFoundError then SqlFileNotFound
                           else UnexpectedError x, FallingBack, UsingSampleSopr],
                       snd (query_sopr E s e True))
                 else try_sopr E s e)"
proof (cases "try_sopr E s e")
  case (Pair out res)
  show ?thesis
  proof (cases res)
    case (Inr df)
    with Pair assms show ?thesis by (simp add: query_sopr.simps(2))
  next
    case (Inl x)
    with Pair assms show ?thesis
      by (cases x) (simp_all add: printing_def query_sopr.simps(2))
  qed
qed

lemma query_prices_live:
  assumes "validate_dates s e = Inr ()"
  shows "query_prices E s e False =
     (case snd (try_prices E s e) of
        Inr df \<Rightarrow> try_prices E s e
      | Inl x \<Rightarrow> if is_Exception x
                 then (fst (try_prices E s e)
                        @ [if is_GoogleCloudError x then BigQueryError x
                           else UnexpectedError x, FallingBack, UsingSamplePrice],
                       snd (query_prices E s e True))
                 else try_prices E s e)"
proof (cases "try_prices E s e")
  case (Pair out res)
  show ?thesis
  proof (cases res)
    case (Inr df)
    with Pair assms show ?thesis by (simp add: query_prices.simps(2))
  next
    case (Inl x)
    with Pair assms show ?thesis
      by (cases x) (simp_all add: printing_def query_prices.simps(2))
  qed
qed


lemmas strptime_eval =
  strptime_def match_ymd_def re_Y_def re_m_def re_d_def alts_def List.map_filter_simps
  is_digit_def one_of_def int_of_group_def check_date_fields_def days_in_month_def
  is_leap_def ymd2ord_def days_before_year_def days_before_month_def

lemma strptime_2024_01_30:
  "strptime ''2024-01-30'' = Inr 738915"
  by (simp add: strptime_eval)

lemma strptime_2024_01_31:
  "strptime ''2024-01-31'' = Inr 738916"
  by (simp add: strptime_eval)

lemma strptime_2024_02_30:
  "strptime ''2024-02-30'' = Inl ValueError"
  by (simp add: strptime_eval)

lemma strptime_2024_03_01:
  "strptime ''2024-03-01'' = Inr 738946"
  by (simp add: strptime_eval)

text \<open>
  C5. For two strings that pass the date check and that pandas reads as those dates, with
  the start not after the end, \<open>query_sopr(start_date, end_date, use_sample=True)\<close> prints
  the sample line only and returns rows whose date lies between the two midnights, each
  the midnight of a date of \<open>SAMPLE_SOPR_DATA\<close> inside the range.
\<close>

theorem sample_sopr_within_range:
  assumes "strptime start_date = Inr ds" "strptime end_date = Inr de" "ds \<le> de"
    and "Timestamp E start_date = Some (to_datetime ds)"
    and "Timestamp E end_date = Some (to_datetime de)"
  shows "\<exists>df. query_sopr E start_date end_date True = ([UsingSampleSopr], Inr df)
           \<and> (\<forall>r \<in> set df. to_datetime ds \<le> date r \<and> date r \<le> to_datetime de)
           \<and> date ` set df
               \<subseteq> to_datetime ` {d \<in> date ` set (SAMPLE_SOPR_DATA E). ds \<le> d \<and> d \<le> de}"
proof -
  let ?df = "filter (\<lambda>r. to_datetime ds \<le> date r \<and> date r \<le> to_datetime de)
               (map (\<lambda>r. r\<lparr>date := to_datetime (date r)\<rparr>) (SAMPLE_SOPR_DATA E))"
  have "query_sopr E start_date end_date True = ([UsingSampleSopr], Inr ?df)"
    using assms(4,5) by (simp add: printing_def filter_sample_Some)
  moreover have "\<forall>r \<in> set ?df. to_datetime ds \<le> date r \<and> date r \<le> to_datetime de"
    by simp
  moreover have "date ` set ?df
      \<subseteq> to_datetime ` {d \<in> date ` set (SAMPLE_SOPR_DATA E). ds \<le> d \<and> d \<le> de}"
  proof
    fix t assume "t \<in> date ` set ?df"
    then obtain r where r: "r \<in> set (SAMPLE_SOPR_DATA E)" "t = to_datetime (date r)"
      "to_datetime ds \<le> to_datetime (date r)" "to_datetime (date r) \<le> to_datetime de"
      by auto
    then have "date r \<in> {d \<in> date ` set (SAMPLE_SOPR_DATA E). ds \<le> d \<and> d \<le> de}"
      by simp
    with r(2) show "t \<in> to_datetime ` {d \<in> date ` set (SAMPLE_SOPR_DATA E). ds \<le> d \<and> d \<le> de}"
      by (rule image_eqI)
  qed
  ultimately show ?thesis by blast
qed





theorem sample_sopr_within_range_witness:
  "strptime ''2024-01-30'' = Inr 738915 \<and> strptime ''2024-01-31'' = Inr 738916
   \<and> (738915 :: int) \<le> 738916
   \<and> query_sopr demo_env ''2024-01-30'' ''2024-01-31'' True
       = ([UsingSampleSopr],
          Inr [\<lparr>date = to_datetime 738916, sopr = nearest 103 100\<rparr>,
               \<lparr>date = to_datetime 738915, sopr = nearest 101 100\<rparr>])"
proof -
  have t: "Timestamp demo_env ''2024-01-30'' = Some (to_datetime 738915)"
          "Timestamp demo_env ''2024-01-31'' = Some (to_datetime 738916)"
    by (simp_all add: demo_env_def iso_Timestamp_def strptime_2024_01_30 strptime_2024_01_31)
  have s: "SAMPLE_SOPR_DATA demo_env =
        [\<lparr>date = 738916, sopr = nearest 103 100\<rparr>, \<lparr>date = 738915, sopr = nearest 101 100\<rparr>,
         \<lparr>date = 738914, sopr = nearest 98 100\<rparr>]"
    by (simp add: demo_env_def)
  have q: "query_sopr demo_env ''2024-01-30'' ''2024-01-31'' True
       = ([UsingSampleSopr],
          Inr [\<lparr>date = to_datetime 738916, sopr = nearest 103 100\<rparr>,
               \<lparr>date = to_datetime 738915, sopr = nearest 101 100\<rparr>])"
    by (simp add: printing_def filter_sample_Some[where parse = "Timestamp demo_env" and s = "''2024-01-30''"
              and e = "''2024-01-31''", OF t(1) t(2)] s)
  have le: "(738915 :: int) \<le> 738916" by simp
  from sample_sopr_within_range[OF strptime_2024_01_30 strptime_2024_01_31 le t]
    strptime_2024_01_30 strptime_2024_01_31 le q
  show ?thesis by blast
qed






lemma filter_sample_prices_Some:
  assumes "parse s = Some ts" "parse e = Some te"
  shows "filter_sample parse (df :: price_usd_row list) s e =
           Inr (filter (\<lambda>r. ts \<le> date r \<and> date r \<le> te)
                  (map (\<lambda>r. r\<lparr>date := to_datetime (date r)\<rparr>) df))"
  using assms by (rule filter_sample_Some)

lemma filter_sample_not_ValueError:
  "filter_sample parse df s e \<noteq> Inl ValueError"
  using filter_sample_cases[of parse df s e] by auto

lemma query_sopr_terminates: "query_sopr_dom (E, s, e, u)"
proof (cases u)
  case True
  then show ?thesis by (simp add: query_sopr.domintros(1))
next
  case False
  have "query_sopr_dom (E, s, e, False)"
    by (rule query_sopr.domintros(2)) (rule query_sopr.domintros(1))+
  with False show ?thesis by simp
qed

lemma query_prices_terminates: "query_prices_dom (E, s, e, u)"
proof (cases u)
  case True
  then show ?thesis by (simp add: query_prices.domintros(1))
next
  case False
  have "query_prices_dom (E, s, e, False)"
    by (rule query_prices.domintros(2)) (rule query_prices.domintros(1))+
  with False show ?thesis by simp
qed

lemma no_fallback_line:
  "FallingBack \<notin> set ls \<Longrightarrow> filter (\<lambda>l. l = FallingBack) ls = []"
  by (induction ls) auto

lemma query_sopr_fallbacks:
  "length (filter (\<lambda>l. l = FallingBack) (fst (query_sopr E s e u))) \<le> 1"
proof (cases u)
  case True
  then show ?thesis by (simp add: printing_def)
next
  case False
  show ?thesis
  proof (cases "validate_dates s e")
    case (Inl x)
    with False show ?thesis by (simp add: query_sopr.simps(2))
  next
    case (Inr v)
    then have ok: "validate_dates s e = Inr ()" by simp
    have t: "filter (\<lambda>l. l = FallingBack) (fst (try_sopr E s e)) = []"
      by (rule no_fallback_line) (rule try_sopr_lines)
    show ?thesis
    proof (cases "snd (try_sopr E s e)")
      case (Inr df)
      with False t show ?thesis by (simp add: query_sopr_live[OF ok])
    next
      case (Inl x)
      with False t show ?thesis by (simp add: query_sopr_live[OF ok])
    qed
  qed
qed

lemma query_prices_fallbacks:
  "length (filter (\<lambda>l. l = FallingBack) (fst (query_prices E s e u))) \<le> 1"
proof (cases u)
  case True
  then show ?thesis by (simp add: printing_def)
next
  case False
  show ?thesis
  proof (cases "validate_dates s e")
    case (Inl x)
    with False show ?thesis by (simp add: query_prices.simps(2))
  next
    case (Inr v)
    then have ok: "validate_dates s e = Inr ()" by simp
    have t: "filter (\<lambda>l. l = FallingBack) (fst (try_prices E s e)) = []"
      by (rule no_fallback_line) (rule try_prices_lines)
    show ?thesis
    proof (cases "snd (try_prices E s e)")
      case (Inr df)
      with False t show ?thesis by (simp add: query_prices_live[OF ok])
    next
      case (Inl x)
      with False t show ?thesis by (simp add: query_prices_live[OF ok])
    qed
  qed
qed

lemma query_sopr_fallback_iff:
  assumes ok: "validate_dates s e = Inr ()"
  shows "FallingBack \<in> set (fst (query_sopr E s e False))
         \<longleftrightarrow> (\<exists>x. snd (try_sopr E s e) = Inl x \<and> is_Exception x)"
proof (cases "snd (try_sopr E s e)")
  case (Inr df)
  then show ?thesis using try_sopr_lines[of E s e] by (simp add: query_sopr_live[OF ok])
next
  case (Inl x)
  then show ?thesis using try_sopr_lines[of E s e] by (simp add: query_sopr_live[OF ok])
qed

lemma query_prices_fallback_iff:
  assumes ok: "validate_dates s e = Inr ()"
  shows "FallingBack \<in> set (fst (query_prices E s e False))
         \<longleftrightarrow> (\<exists>x. snd (try_prices E s e) = Inl x \<and> is_Exception x)"
proof (cases "snd (try_prices E s e)")
  case (Inr df)
  then show ?thesis using try_prices_lines[of E s e] by (simp add: query_prices_live[OF ok])
next
  case (Inl x)
  then show ?thesis using try_prices_lines[of E s e] by (simp add: query_prices_live[OF ok])
qed


text \<open>
  C1. For a date range that passes the date check and that pandas reads as those dates, if
  the live price query raises an exception of class \<open>Exception\<close>, then
  \<open>query_prices(start_date, end_date, use_sample=False)\<close> does not raise: it returns what
  the call with \<open>use_sample=True\<close> returns, the rows of \<open>SAMPLE_PRICES\<close> inside the range
  with the price column renamed.
\<close>

theorem prices_fall_back_to_sample:
  assumes "strptime start_date = Inr ds" "strptime end_date = Inr de"
    and "Timestamp E start_date = Some (to_datetime ds)"
    and "Timestamp E end_date = Some (to_datetime de)"
    and "snd (try_prices E start_date end_date) = Inl x" "is_Exception x"
  shows "snd (query_prices E start_date end_date False)
           = snd (query_prices E start_date end_date True)
       \<and> snd (query_prices E start_date end_date False)
           = Inr (rename_price
                    (filter (\<lambda>r. to_datetime ds \<le> date r \<and> date r \<le> to_datetime de)
                       (map (\<lambda>r. r\<lparr>date := to_datetime (date r)\<rparr>) (SAMPLE_PRICES E))))"
proof -
  have ok: "validate_dates start_date end_date = Inr ()"
    using assms(1,2) by (rule validate_dates_ok)
  have "snd (query_prices E start_date end_date False)
          = snd (query_prices E start_date end_date True)"
    using assms(5,6) by (simp add: query_prices_live[OF ok])
  moreover have "snd (query_prices E start_date end_date True)
          = Inr (rename_price
                    (filter (\<lambda>r. to_datetime ds \<le> date r \<and> date r \<le> to_datetime de)
                       (map (\<lambda>r. r\<lparr>date := to_datetime (date r)\<rparr>) (SAMPLE_PRICES E))))"
    using assms(3,4) by (simp add: printing_def filter_sample_prices_Some)
  ultimately show ?thesis by simp
qed

theorem prices_fall_back_to_sample_witness:
  "strptime ''2024-01-30'' = Inr 738915 \<and> strptime ''2024-01-31'' = Inr 738916
   \<and> snd (try_prices demo_env ''2024-01-30'' ''2024-01-31'') = Inl OtherError
   \<and> snd (query_prices demo_env ''2024-01-30'' ''2024-01-31'' False)
       = Inr [\<lparr>date = to_datetime 738915, price = PyInt 42100\<rparr>,
              \<lparr>date = to_datetime 738916, price = PyInt 42200\<rparr>]"
proof -
  have t: "Timestamp demo_env ''2024-01-30'' = Some (to_datetime 738915)"
          "Timestamp demo_env ''2024-01-31'' = Some (to_datetime 738916)"
    by (simp_all add: demo_env_def iso_Timestamp_def strptime_2024_01_30 strptime_2024_01_31)
  have f: "snd (try_prices demo_env ''2024-01-30'' ''2024-01-31'') = Inl OtherError"
    by (simp add: try_prices_def demo_env_def printing_def)
  have s: "SAMPLE_PRICES demo_env =
        [\<lparr>date = 738914, price_usd = 42000\<rparr>, \<lparr>date = 738915, price_usd = 42100\<rparr>,
         \<lparr>date = 738916, price_usd = 42200\<rparr>]"
    by (simp add: demo_env_def)
  from prices_fall_back_to_sample[OF strptime_2024_01_30 strptime_2024_01_31 t f, THEN conjunct2]
  show ?thesis
    by (simp add: strptime_2024_01_30 strptime_2024_01_31 f s rename_price_def)
qed

text \<open>
  C3. With dates that pass the check, a live query that succeeds is returned as it is, so
  a successful query with no rows gives the empty live frame (after the two lines of the
  live path, none of them a fallback line); and a fallback line is printed exactly when the
  \<open>try\<close> block ended with an exception of class \<open>Exception\<close>.
\<close>

theorem empty_live_result_is_returned:
  assumes "strptime start_date = Inr ds" "strptime end_date = Inr de"
  shows "(read_sql E = Inr template \<and> GCP_PROJECT_ID E = Some project_id \<and> Client E = None
           \<and> sopr_query E (replace ''{project_id}'' project_id template) start_date end_date
               = Inr []
          \<longrightarrow> query_sopr E start_date end_date False
                = ([QueryingSopr start_date end_date, Retrieved 0], Inr []))
       \<and> (Client E = None
           \<and> price_query E (TABLE_DAILY_PRICES E) start_date end_date = Inr []
          \<longrightarrow> query_prices E start_date end_date False
                = ([QueryingPrice start_date end_date, RetrievedPrices 0], Inr []))
       \<and> (FallingBack \<in> set (fst (query_sopr E start_date end_date False))
            \<longleftrightarrow> (\<exists>x. snd (try_sopr E start_date end_date) = Inl x \<and> is_Exception x))
       \<and> (FallingBack \<in> set (fst (query_prices E start_date end_date False))
            \<longleftrightarrow> (\<exists>x. snd (try_prices E start_date end_date) = Inl x \<and> is_Exception x))"
proof -
  have ok: "validate_dates start_date end_date = Inr ()"
    using assms by (rule validate_dates_ok)
  have a: "read_sql E = Inr template \<and> GCP_PROJECT_ID E = Some project_id \<and> Client E = None
           \<and> sopr_query E (replace ''{project_id}'' project_id template) start_date end_date
               = Inr []
          \<longrightarrow> query_sopr E start_date end_date False
                = ([QueryingSopr start_date end_date, Retrieved 0], Inr [])"
  proof
    assume h: "read_sql E = Inr template \<and> GCP_PROJECT_ID E = Some project_id \<and> Client E = None
           \<and> sopr_query E (replace ''{project_id}'' project_id template) start_date end_date
               = Inr []"
    then have "try_sopr E start_date end_date
                 = ([QueryingSopr start_date end_date, Retrieved 0], Inr [])"
      by (simp add: try_sopr_def printing_def Let_def)
    then show "query_sopr E start_date end_date False
                = ([QueryingSopr start_date end_date, Retrieved 0], Inr [])"
      by (simp add: query_sopr_live[OF ok])
  qed
  have b: "Client E = None
           \<and> price_query E (TABLE_DAILY_PRICES E) start_date end_date = Inr []
          \<longrightarrow> query_prices E start_date end_date False
                = ([QueryingPrice start_date end_date, RetrievedPrices 0], Inr [])"
  proof
    assume h: "Client E = None
           \<and> price_query E (TABLE_DAILY_PRICES E) start_date end_date = Inr []"
    then have "try_prices E start_date end_date
                 = ([QueryingPrice start_date end_date, RetrievedPrices 0], Inr [])"
      by (simp add: try_prices_def printing_def)
    then show "query_prices E start_date end_date False
                = ([QueryingPrice start_date end_date, RetrievedPrices 0], Inr [])"
      by (simp add: query_prices_live[OF ok])
  qed
  from a b query_sopr_fallback_iff[OF ok] query_prices_fallback_iff[OF ok]
  show ?thesis by blast
qed

theorem empty_live_result_is_returned_witness:
  "strptime ''2024-01-30'' = Inr 738915 \<and> strptime ''2024-01-31'' = Inr 738916
   \<and> query_sopr empty_live_env ''2024-01-30'' ''2024-01-31'' False
       = ([QueryingSopr ''2024-01-30'' ''2024-01-31'', Retrieved 0], Inr [])
   \<and> query_prices empty_live_env ''2024-01-30'' ''2024-01-31'' False
       = ([QueryingPrice ''2024-01-30'' ''2024-01-31'', RetrievedPrices 0], Inr [])
   \<and> FallingBack \<in> set (fst (query_sopr demo_env ''2024-01-30'' ''2024-01-31'' False))"
proof -
  have e: "read_sql empty_live_env = Inr ''select * from {project_id}.sopr''"
    "GCP_PROJECT_ID empty_live_env = Some ''demo''" "Client empty_live_env = None"
    "sopr_query empty_live_env = (\<lambda>sql s e. Inr [])"
    "price_query empty_live_env = (\<lambda>table s e. Inr [])"
    by (simp_all add: empty_live_env_def demo_env_def)
  have d: "snd (try_sopr demo_env ''2024-01-30'' ''2024-01-31'') = Inl GoogleCloudError"
    by (simp add: try_sopr_def demo_env_def printing_def Let_def)
  from empty_live_result_is_returned[OF strptime_2024_01_30 strptime_2024_01_31,
         of empty_live_env "''select * from {project_id}.sopr''" "''demo''"]
       empty_live_result_is_returned[OF strptime_2024_01_30 strptime_2024_01_31,
         of demo_env "''select * from {project_id}.sopr''" "''demo''"]
  show ?thesis
    by (simp add: strptime_2024_01_30 strptime_2024_01_31 e d)
qed

text \<open>
  C9. Both query functions terminate on every input (the argument lies in the
  well-founded part of the recursion), a call prints the fallback line, and so re-invokes
  itself, at most once, and the re-invocation with \<open>use_sample=True\<close> prints the sample
  line only: it neither queries nor falls back.
\<close>

theorem fallback_at_most_once:
  "query_sopr_dom (E, start_date, end_date, use_sample)
   \<and> query_prices_dom (E, start_date, end_date, use_sample)
   \<and> length (filter (\<lambda>l. l = FallingBack)
               (fst (query_sopr E start_date end_date use_sample))) \<le> 1
   \<and> length (filter (\<lambda>l. l = FallingBack)
               (fst (query_prices E start_date end_date use_sample))) \<le> 1
   \<and> fst (query_sopr E start_date end_date True) = [UsingSampleSopr]
   \<and> fst (query_prices E start_date end_date True) = [UsingSamplePrice]"
  by (intro conjI)
     (rule query_sopr_terminates query_prices_terminates query_sopr_fallbacks
        query_prices_fallbacks query_sopr_sample_lines query_prices_sample_lines)+

theorem fallback_at_most_once_witness:
  "fst (query_sopr demo_env ''2024-01-30'' ''2024-01-31'' False)
     = [QueryingSopr ''2024-01-30'' ''2024-01-31'', BigQueryError GoogleCloudError,
        FallingBack, UsingSampleSopr]
   \<and> length (filter (\<lambda>l. l = FallingBack)
               (fst (query_sopr demo_env ''2024-01-30'' ''2024-01-31'' False))) \<le> 1
   \<and> query_sopr_dom (demo_env, ''2024-01-30'', ''2024-01-31'', False)"
proof -
  have ok: "validate_dates ''2024-01-30'' ''2024-01-31'' = Inr ()"
    using strptime_2024_01_30 strptime_2024_01_31 by (rule validate_dates_ok)
  have d: "try_sopr demo_env ''2024-01-30'' ''2024-01-31''
             = ([QueryingSopr ''2024-01-30'' ''2024-01-31''], Inl GoogleCloudError)"
    by (simp add: try_sopr_def demo_env_def printing_def Let_def)
  have "fst (query_sopr demo_env ''2024-01-30'' ''2024-01-31'' False)
     = [QueryingSopr ''2024-01-30'' ''2024-01-31'', BigQueryError GoogleCloudError,
        FallingBack, UsingSampleSopr]"
    by (simp add: query_sopr_live[OF ok] d)
  with fallback_at_most_once[of demo_env "''2024-01-30''" "''2024-01-31''" False]
  show ?thesis by simp
qed

text \<open>
  C2 at \<open>query_sopr("2024-02-30", "2024-03-01", ...)\<close>. The first string is no calendar
  date. With \<open>use_sample=False\<close> the date check raises \<open>ValueError\<close>. With
  \<open>use_sample=True\<close> the function returns from the sample branch before the date check:
  whatever pandas makes of the strings, the outcome is a frame or a \<open>TypeError\<close>, never
  the \<open>ValueError\<close> the claim and the docstring promise.
\<close>

theorem invalid_date_in_sample_mode:
  "strptime ''2024-02-30'' = Inl ValueError
   \<and> snd (query_sopr E ''2024-02-30'' ''2024-03-01'' False) = Inl ValueError
   \<and> snd (query_sopr E ''2024-02-30'' ''2024-03-01'' True) \<noteq> Inl ValueError
   \<and> (Timestamp E ''2024-02-30'' = None \<longrightarrow>
        snd (query_sopr E ''2024-02-30'' ''2024-03-01'' True) = Inl TypeError)"
proof -
  have v: "validate_dates ''2024-02-30'' ''2024-03-01'' = Inl ValueError"
    by (simp add: validate_dates_def strptime_2024_02_30)
  have a: "snd (query_sopr E ''2024-02-30'' ''2024-03-01'' False) = Inl ValueError"
    by (simp add: v query_sopr.simps(2))
  have b: "snd (query_sopr E ''2024-02-30'' ''2024-03-01'' True) \<noteq> Inl ValueError"
    by (simp add: printing_def filter_sample_not_ValueError)
  have c: "Timestamp E ''2024-02-30'' = None \<longrightarrow>
        snd (query_sopr E ''2024-02-30'' ''2024-03-01'' True) = Inl TypeError"
    by (simp add: printing_def filter_sample_def cmp_str_def Let_def)
  from strptime_2024_02_30 a b c show ?thesis by blast
qed

theorem invalid_date_in_sample_mode_witness:
  "snd (query_sopr demo_env ''2024-02-30'' ''2024-03-01'' False) = Inl ValueError
   \<and> snd (query_sopr demo_env ''2024-02-30'' ''2024-03-01'' True) = Inl TypeError"
proof -
  have "Timestamp demo_env ''2024-02-30'' = None"
    by (simp add: demo_env_def iso_Timestamp_def strptime_2024_02_30)
  with invalid_date_in_sample_mode[of demo_env] show ?thesis by simp
qed

section \<open>The price ingestion job\<close>

lemma confirm_Some:
  "confirm E n = Some x \<Longrightarrow> x = Cancelled \<or> (\<exists>e. x = Raised e)"
  unfolding confirm_def Let_def
  by (cases "0 < n"; cases "stdin E") (auto split: if_splits)

lemma main_empty_fetch:
  assumes "history E UTXO_START_DATE (now E) = Inr []"
  shows "main E W =
     (case validate_config E of
        Inl e \<Rightarrow> (Raised e, W)
      | Inr ok \<Rightarrow>
          (case Client E of
             Some e \<Rightarrow> (Raised e, W)
           | None \<Rightarrow>
               (case check_existing_data W (TABLE_DAILY_PRICES E) of
                  Inl e \<Rightarrow> (Raised e, W)
                | Inr existing_rows \<Rightarrow>
                    (case confirm E existing_rows of
                       Some x \<Rightarrow> (x, W)
                     | None \<Rightarrow> (NoData, W)))))"
proof -
  have "fetch_btc_prices E UTXO_START_DATE (now E) = Inr []"
    by (simp add: fetch_btc_prices_def assms)
  then show ?thesis
    by (simp add: main_def Let_def split: sum.split option.split)
qed

text \<open>
  C7. When the configuration is valid, the client is constructed, the target table holds
  at least one row and the operator's answer, trimmed and lowercased, is neither
  \<open>"yes"\<close> nor \<open>"y"\<close>, \<open>main\<close> ends at "Operation cancelled" and the warehouse is as it
  was: the table has its rows and no load job has run.
\<close>

theorem declined_overwrite_cancels:
  assumes "validate_config E = Inr True" "Client E = None"
    and "tables W (TABLE_DAILY_PRICES E) = Some rows" "rows \<noteq> []"
    and "stdin E = Inr answer" "lower (strip answer) \<notin> {''yes'', ''y''}"
  shows "main E W = (Cancelled, W)"
proof -
  have "check_existing_data W (TABLE_DAILY_PRICES E) = Inr (int (length rows))"
    using assms(3) by (simp add: check_existing_data_def get_table_def)
  moreover have "0 < int (length rows)" using assms(4) by simp
  then have "confirm E (int (length rows)) = Some Cancelled"
    using assms(5,6) by (simp add: confirm_def Let_def)
  ultimately show ?thesis
    using assms(1,2) by (simp add: main_def)
qed

theorem declined_overwrite_cancels_witness:
  "validate_config demo_job = Inr True
   \<and> check_existing_data demo_warehouse (TABLE_DAILY_PRICES demo_job) = Inr 100
   \<and> lower (strip '' No '') = ''no''
   \<and> main demo_job demo_warehouse = (Cancelled, demo_warehouse)"
proof -
  have c: "validate_config demo_job = Inr True" "Client demo_job = None"
    "stdin demo_job = Inr '' No ''"
    by (simp_all add: demo_job_def validate_config_def)
  have t: "tables demo_warehouse (TABLE_DAILY_PRICES demo_job) = Some (replicate 100 demo_bar)"
    by (simp add: demo_warehouse_def demo_job_def TABLE_DAILY_PRICES_def)
  have n: "replicate 100 demo_bar \<noteq> []" by simp
  have l: "lower (strip '' No '') = ''no''"
    by (simp add: lower_def strip_def isspace_def lower_char_def char_of_def bit_0)
  have a: "lower (strip '' No '') \<notin> {''yes'', ''y''}"
    unfolding l by simp
  have k: "check_existing_data demo_warehouse (TABLE_DAILY_PRICES demo_job) = Inr 100"
    using t by (simp add: check_existing_data_def get_table_def)
  from declined_overwrite_cancels[OF c(1) c(2) t n c(3) a] c(1) k l
  show ?thesis by blast
qed

text \<open>
  C8. When the market-data source returns no rows for the job's window, \<open>main\<close> leaves the
  warehouse as it was on every path (the table keeps its rows, no load job runs) and never
  ends at the final count; and when the job gets as far as the fetch (valid configuration,
  client constructed, no confirmation needed or confirmation given) it ends at "No data
  fetched".
\<close>

theorem empty_fetch_writes_nothing:
  assumes "history E UTXO_START_DATE (now E) = Inr []"
  shows "snd (main E W) = W
       \<and> (fst (main E W) = NoData \<or> fst (main E W) = Cancelled
            \<or> (\<exists>e. fst (main E W) = Raised e))
       \<and> (validate_config E = Inr True \<and> Client E = None
            \<and> check_existing_data W (TABLE_DAILY_PRICES E) = Inr existing_rows
            \<and> confirm E existing_rows = None
           \<longrightarrow> main E W = (NoData, W))"
proof (intro conjI impI)
  note m = main_empty_fetch[OF assms, of W]
  show "snd (main E W) = W"
    unfolding m by (simp split: sum.split option.split)
  show "fst (main E W) = NoData \<or> fst (main E W) = Cancelled
            \<or> (\<exists>e. fst (main E W) = Raised e)"
    unfolding m by (auto split: sum.split option.split dest: confirm_Some)
  assume "validate_config E = Inr True \<and> Client E = None
            \<and> check_existing_data W (TABLE_DAILY_PRICES E) = Inr existing_rows
            \<and> confirm E existing_rows = None"
  then show "main E W = (NoData, W)"
    unfolding m by simp
qed

theorem empty_fetch_writes_nothing_witness:
  "history (demo_job\<lparr>stdin := Inr ''yes''\<rparr>) UTXO_START_DATE ''2024-01-31'' = Inr []
   \<and> confirm (demo_job\<lparr>stdin := Inr ''yes''\<rparr>) 100 = None
   \<and> main (demo_job\<lparr>stdin := Inr ''yes''\<rparr>) demo_warehouse = (NoData, demo_warehouse)
   \<and> tables demo_warehouse ''demo.bitcoin_analytics.daily_prices''
       = Some (replicate 100 demo_bar)"
proof -
  let ?E = "demo_job\<lparr>stdin := Inr ''yes''\<rparr>"
  have h: "history ?E UTXO_START_DATE (now ?E) = Inr []"
    by (simp add: demo_job_def)
  have h': "history ?E UTXO_START_DATE ''2024-01-31'' = Inr []"
    by (simp add: demo_job_def)
  have c: "validate_config ?E = Inr True" "Client ?E = None"
    by (simp_all add: demo_job_def validate_config_def)
  have t: "tables demo_warehouse ''demo.bitcoin_analytics.daily_prices''
             = Some (replicate 100 demo_bar)"
    by (simp add: demo_warehouse_def)
  have k: "check_existing_data demo_warehouse (TABLE_DAILY_PRICES ?E) = Inr 100"
    by (simp add: check_existing_data_def get_table_def demo_warehouse_def demo_job_def
          TABLE_DAILY_PRICES_def)
  have y: "lower (strip ''yes'') = ''yes''"
    by (simp add: lower_def strip_def isspace_def lower_char_def)
  have f: "confirm ?E 100 = None"
    by (simp add: confirm_def Let_def demo_job_def y)
  from empty_fetch_writes_nothing[OF h, of demo_warehouse 100] c k f h' t
  show ?thesis by blast
qed

end
